theory Spec2Isabelle
  imports Main
begin

section \<open>The update checker of kots (pkg/updatechecker/updatechecker.go)\<close>

text \<open>
  The package schedules, per application, a cron job that checks the upstream for new
  releases (\<open>Start\<close>, \<open>Configure\<close>, \<open>Stop\<close>) and runs one check
  (\<open>CheckForUpdates\<close>). Everything the package calls outside itself (the store, the
  licence sync, the upstream, the deployer, the cron library, the clock) is a collaborator:
  its answers are the fields of a \<open>world\<close> record, and every call the code makes is
  appended to a trace, so that a theorem can say which calls a run made and which it did not.
\<close>

subsection \<open>Errors\<close>

text \<open>
  Go's \<open>error\<close> is an interface value that may be nil: \<open>error option\<close>, with
  \<open>None\<close> for nil. \<open>errors.New\<close> builds a \<open>Failure\<close>;
  \<open>errors.Wrap\<close> (github.com/pkg/errors) annotates an error with a message and
  returns nil when the error it is given is nil.
\<close>

datatype error = Failure string | Wrapped error string

definition errors_New :: "string \<Rightarrow> error option" where
  "errors_New msg = Some (Failure msg)"

fun errors_Wrap :: "error option \<Rightarrow> string \<Rightarrow> error option" where
  "errors_Wrap None msg = None"
| "errors_Wrap (Some e) msg = Some (Wrapped e msg)"

text \<open>
  What a call of \<open>CheckForUpdates\<close> ends with: the pair it returns (the int64 count of
  available updates, read as an integer, and the error), or a run-time panic.
\<close>

datatype ret = Return int "error option" | Panic string

subsection \<open>Data\<close>

record app =
  ID :: string
  Slug :: string
  IsAirgap :: bool
  UpdateCheckerSpec :: string
  CurrentSequence :: int

text \<open>The fields of \<open>kotsKinds\<close> that the check reads: \<open>Installation.Spec.*\<close> and
  \<open>License.Spec.AppSlug\<close>.\<close>

record kotskinds =
  UpdateCursor :: string
  ChannelID :: string
  ChannelName :: string
  VersionLabel :: string
  AppSlug :: string

record GetUpdatesOptions =
  License :: string
  CurrentCursor :: string
  CurrentChannelID :: string
  CurrentChannelName :: string
  CurrentVersionLabel :: string
  Silent :: bool
  ReportingInfo :: string

record update =
  Cursor :: string

record appversion =
  Sequence :: int

record downstream =
  ClusterID :: string

subsection \<open>Collaborators and the trace of calls\<close>

datatype event =
    Call_GetTaskStatus string
  | Call_ClearTaskStatus string
  | Call_SetTaskStatus string string string
  | Call_GetApp string
  | Call_license_Sync app
  | Call_TempDir
  | Call_GetAppVersionArchive string int string
  | Call_LoadKotsKindsFromPath string
  | Call_GetLatestLicenseForApp string
  | Call_GetReportingInfo string
  | Call_GetUpdates string GetUpdatesOptions
  | Call_LastUpdateAtTime string
  | Call_GetVersions string
  | Call_ListDownstreamsForApp string
  | Call_GetCurrentParentSequence string string
  | Call_DeployVersion string int
  | Call_DownloadUpdate string string string bool
  | Call_RemoveAll string
  | Go_staging app string "update list" bool bool bool
  | Go_ReportAppInfo string int bool bool
  | Log_Debug string
  | Log_Error error

text \<open>
  The answers of the collaborators. A call that returns \<open>(value, err)\<close> answers
  \<open>Inl err\<close> or \<open>Inr value\<close>; a call that returns only an error answers an
  \<open>error option\<close>. The three task-status fields say whether the store's read, clear
  and write fail; what they read and write is the \<open>task_status\<close> of the state below.
  \<open>GetApp_reloaded\<close> is the store's answer to the second \<open>GetApp\<close> of a check,
  made after the licence sync, which may have created a release in between.
  \<open>time_Now\<close> is the wall clock in seconds, and \<open>cron_Parse\<close> the error, if any,
  the cron library's parser gives for a schedule expression.
\<close>

record world =
  GetTaskStatus_fails :: "error option"
  ClearTaskStatus_fails :: "error option"
  SetTaskStatus_fails :: "error option"
  GetApp :: "string \<Rightarrow> error + app"
  GetApp_reloaded :: "string \<Rightarrow> error + app"
  license_Sync :: "app \<Rightarrow> error option"
  TempDir :: "error + string"
  GetAppVersionArchive :: "string \<Rightarrow> int \<Rightarrow> string \<Rightarrow> error option"
  LoadKotsKindsFromPath :: "string \<Rightarrow> error + kotskinds"
  GetLatestLicenseForApp :: "string \<Rightarrow> error + string"
  GetReportingInfo :: "string \<Rightarrow> string"
  GetUpdates :: "string \<Rightarrow> GetUpdatesOptions \<Rightarrow> error + update list"
  LastUpdateAtTime :: "string \<Rightarrow> error option"
  GetVersions :: "string \<Rightarrow> error + appversion list"
  ListDownstreamsForApp :: "string \<Rightarrow> error + downstream list"
  GetCurrentParentSequence :: "string \<Rightarrow> string \<Rightarrow> error + int"
  DeployVersion :: "string \<Rightarrow> int \<Rightarrow> error option"
  DownloadUpdate :: "string \<Rightarrow> string \<Rightarrow> string \<Rightarrow> bool \<Rightarrow> error + int"
  ListInstalledApps :: "error + app list"
  time_Now :: nat
  cron_Parse :: "string \<Rightarrow> error option"

text \<open>
  The state a check works on: the store's task-status table, from task name to
  (message, status), and the trace of calls made so far.
\<close>

record state =
  task_status :: "string \<rightharpoonup> (string \<times> string)"
  trace :: "event list"

definition emit :: "event \<Rightarrow> state \<Rightarrow> state" where
  "emit e s = s\<lparr>trace := trace s @ [e]\<rparr>"

text \<open>\<open>store.GetTaskStatus\<close>: the status of a task, empty when the task has no row.\<close>

definition store_GetTaskStatus :: "world \<Rightarrow> string \<Rightarrow> state \<Rightarrow> (error + string) \<times> state" where
  "store_GetTaskStatus w name s =
     (case GetTaskStatus_fails w of
        Some err \<Rightarrow> (Inl err, emit (Call_GetTaskStatus name) s)
      | None \<Rightarrow>
          (Inr (case task_status s name of None \<Rightarrow> [] | Some (message, status) \<Rightarrow> status),
           emit (Call_GetTaskStatus name) s))"

text \<open>\<open>store.ClearTaskStatus\<close>: removes the task's row; a failed call changes nothing.\<close>

definition store_ClearTaskStatus :: "world \<Rightarrow> string \<Rightarrow> state \<Rightarrow> error option \<times> state" where
  "store_ClearTaskStatus w name s =
     (case ClearTaskStatus_fails w of
        Some err \<Rightarrow> (Some err, emit (Call_ClearTaskStatus name) s)
      | None \<Rightarrow>
          (None, emit (Call_ClearTaskStatus name) (s\<lparr>task_status := (task_status s)(name := None)\<rparr>)))"

text \<open>\<open>store.SetTaskStatus\<close>: writes the task's row; a failed call changes nothing.\<close>

definition store_SetTaskStatus ::
  "world \<Rightarrow> string \<Rightarrow> string \<Rightarrow> string \<Rightarrow> state \<Rightarrow> error option \<times> state" where
  "store_SetTaskStatus w name message status s =
     (case SetTaskStatus_fails w of
        Some err \<Rightarrow> (Some err, emit (Call_SetTaskStatus name message status) s)
      | None \<Rightarrow>
          (None, emit (Call_SetTaskStatus name message status)
                   (s\<lparr>task_status := (task_status s)(name \<mapsto> (message, status))\<rparr>)))"

subsection \<open>Decimal rendering (\<open>%d\<close> of \<open>fmt.Sprintf\<close>)\<close>

fun string_of_nat :: "nat \<Rightarrow> string" where
  "string_of_nat n =
     (if n < 10 then [''0123456789'' ! n]
      else string_of_nat (n div 10) @ [''0123456789'' ! (n mod 10)])"

declare string_of_nat.simps [simp del]

subsection \<open>CheckForUpdates\<close>

text \<open>
  Lines 228 to 264, the branch taken when the upstream reports no update. With
  \<open>deploy\<close> unset it returns at once. Otherwise it reads the application's versions,
  takes the last one, reads the downstreams and the parent sequence of the first one, and
  deploys the last version when its sequence is not that parent sequence.
  \<open>downstreams[0]\<close> is read without a length check: on an empty slice Go panics.
\<close>

definition noUpdates :: "world \<Rightarrow> app \<Rightarrow> bool \<Rightarrow> state \<Rightarrow> ret \<times> state" where
  "noUpdates w a deploy s =
     (if \<not> deploy then (Return 0 None, s)
      else
        let s = emit (Call_GetVersions (ID a)) s in
        case GetVersions w (ID a) of
          Inl err \<Rightarrow> (Return 0 (errors_Wrap (Some err) ''failed to list app versions''), s)
        | Inr allVersions \<Rightarrow>
            if length allVersions = 0 then (Return 0 (errors_New ''no versions found''), s)
            else
              let latestVersion = allVersions ! (length allVersions - 1);
                  s = emit (Call_ListDownstreamsForApp (ID a)) s in
              case ListDownstreamsForApp w (ID a) of
                Inl err \<Rightarrow>
                  (Return 0 (errors_Wrap (Some err) ''failed to list downstreams for app''), s)
              | Inr downstreams \<Rightarrow>
                  (case downstreams of
                     [] \<Rightarrow> (Panic ''runtime error: index out of range [0] with length 0'', s)
                   | d0 # ds \<Rightarrow>
                       let s = emit (Call_GetCurrentParentSequence (ID a) (ClusterID d0)) s in
                       case GetCurrentParentSequence w (ID a) (ClusterID d0) of
                         Inl err \<Rightarrow>
                           (Return 0 (errors_Wrap (Some err)
                              ''failed to get current downstream parent sequence''), s)
                       | Inr downstreamParentSequence \<Rightarrow>
                           if Sequence latestVersion \<noteq> downstreamParentSequence then
                             let s = emit (Call_DeployVersion (ID a) (Sequence latestVersion)) s in
                             case DeployVersion w (ID a) (Sequence latestVersion) of
                               Some err \<Rightarrow>
                                 (Return 0 (errors_Wrap (Some err)
                                    ''failed to deploy latest version''), s)
                             | None \<Rightarrow> (Return 0 None, s)
                           else (Return 0 None, s)))"

text \<open>
  Lines 275 to 300, the body of the goroutine that stages the updates. \<open>n\<close> is
  \<open>len(updates)\<close> and \<open>index\<close> the loop index. A failed download is logged and the
  loop continues; after a successful download the version is deployed when \<open>deploy\<close>
  is set and the update is the last of the batch, a failed deploy is logged, and the
  preflight report is started as a goroutine of its own.
\<close>

fun stagingLoop ::
  "world \<Rightarrow> app \<Rightarrow> string \<Rightarrow> bool \<Rightarrow> bool \<Rightarrow> bool \<Rightarrow> nat \<Rightarrow> nat \<Rightarrow> update list \<Rightarrow> state \<Rightarrow> state" where
  "stagingLoop w a archiveDir deploy skipPreflights isCLI n index [] s = s"
| "stagingLoop w a archiveDir deploy skipPreflights isCLI n index (u # us) s =
     (let s = emit (Call_DownloadUpdate (ID a) archiveDir (Cursor u) skipPreflights) s in
      case DownloadUpdate w (ID a) archiveDir (Cursor u) skipPreflights of
        Inl err \<Rightarrow>
          stagingLoop w a archiveDir deploy skipPreflights isCLI n (index + 1) us
            (emit (Log_Error err) s)
      | Inr sequence \<Rightarrow>
          if deploy \<and> index = n - 1 then
            let s = emit (Call_DeployVersion (ID a) sequence) s;
                s = (case DeployVersion w (ID a) sequence of
                       Some err \<Rightarrow> emit (Log_Error err) s
                     | None \<Rightarrow> s);
                s = emit (Go_ReportAppInfo (ID a) sequence skipPreflights isCLI) s
            in stagingLoop w a archiveDir deploy skipPreflights isCLI n (index + 1) us s
          else stagingLoop w a archiveDir deploy skipPreflights isCLI n (index + 1) us s)"

definition staging ::
  "world \<Rightarrow> app \<Rightarrow> string \<Rightarrow> update list \<Rightarrow> bool \<Rightarrow> bool \<Rightarrow> bool \<Rightarrow> state \<Rightarrow> state" where
  "staging w a archiveDir updates deploy skipPreflights isCLI s =
     emit (Call_RemoveAll archiveDir)
       (stagingLoop w a archiveDir deploy skipPreflights isCLI (length updates) 0 updates s)"

text \<open>
  Lines 194 to 302, what runs once the archive of the current version is in
  \<open>archiveDir\<close>. The result carries \<open>removeArchiveDir\<close>, which the deferred function
  reads when the call returns. At line 224 the variable \<open>err\<close> is the one assigned by
  \<open>GetUpdates\<close>, which is nil there; the error of \<open>LastUpdateAtTime\<close> is \<open>t\<close>.
  The goroutine is started, not run: the call returns while it works.
\<close>

definition checkArchive ::
  "world \<Rightarrow> app \<Rightarrow> string \<Rightarrow> bool \<Rightarrow> bool \<Rightarrow> bool \<Rightarrow> state \<Rightarrow> ret \<times> bool \<times> state" where
  "checkArchive w a archiveDir deploy skipPreflights isCLI s =
     (let s = emit (Call_LoadKotsKindsFromPath archiveDir) s in
      case LoadKotsKindsFromPath w archiveDir of
        Inl err \<Rightarrow> (Return 0 (errors_Wrap (Some err) ''failed to load kotskinds from path''), True, s)
      | Inr kotsKinds \<Rightarrow>
          let s = emit (Call_GetLatestLicenseForApp (ID a)) s in
          case GetLatestLicenseForApp w (ID a) of
            Inl err \<Rightarrow> (Return 0 (errors_Wrap (Some err) ''failed to get latest license''), True, s)
          | Inr latestLicense \<Rightarrow>
              let s = emit (Call_GetReportingInfo (ID a)) s;
                  getUpdatesOptions = \<lparr>License = latestLicense,
                     CurrentCursor = UpdateCursor kotsKinds,
                     CurrentChannelID = ChannelID kotsKinds,
                     CurrentChannelName = ChannelName kotsKinds,
                     CurrentVersionLabel = VersionLabel kotsKinds,
                     Silent = False,
                     ReportingInfo = GetReportingInfo w (ID a)\<rparr>;
                  upstreamURI = ''replicated://'' @ AppSlug kotsKinds;
                  s = emit (Call_GetUpdates upstreamURI getUpdatesOptions) s in
              case GetUpdates w upstreamURI getUpdatesOptions of
                Inl err \<Rightarrow> (Return 0 (errors_Wrap (Some err) ''failed to get updates''), True, s)
              | Inr updates \<Rightarrow>
                  let err = None;
                      s = emit (Call_LastUpdateAtTime (ID a)) s;
                      t = LastUpdateAtTime w (ID a) in
                  if t \<noteq> None then
                    (Return 0 (errors_Wrap err ''failed to update last updated at time''), True, s)
                  else if length updates = 0 then
                    (case noUpdates w a deploy s of (r, s) \<Rightarrow> (r, True, s))
                  else
                    let availableUpdates = int (length updates);
                        status = string_of_nat (length updates) @ '' Updates available...'' in
                    case store_SetTaskStatus w ''update-download'' status ''running'' s of
                      (Some err, s) \<Rightarrow>
                        (Return 0 (errors_Wrap (Some err) ''failed to set task status''), True, s)
                    | (None, s) \<Rightarrow>
                        (Return availableUpdates None, False,
                         emit (Go_staging a archiveDir updates deploy skipPreflights isCLI) s))"

text \<open>
  The whole function. The deferred function of lines 183 to 187 runs when the call
  returns or panics, after the temporary directory was made, and removes it when
  \<open>removeArchiveDir\<close> is still set.
\<close>

definition CheckForUpdates ::
  "world \<Rightarrow> string \<Rightarrow> bool \<Rightarrow> bool \<Rightarrow> bool \<Rightarrow> state \<Rightarrow> ret \<times> state" where
  "CheckForUpdates w appID deploy skipPreflights isCLI s =
     (case store_GetTaskStatus w ''update-download'' s of
        (Inl err, s) \<Rightarrow> (Return 0 (errors_Wrap (Some err) ''failed to get task status''), s)
      | (Inr currentStatus, s) \<Rightarrow>
     if currentStatus = ''running'' then
       (Return 0 None, emit (Log_Debug ''update-download is already running, not starting a new one'') s)
     else
     case store_ClearTaskStatus w ''update-download'' s of
        (Some err, s) \<Rightarrow> (Return 0 (errors_Wrap (Some err) ''failed to clear task status''), s)
      | (None, s) \<Rightarrow>
     let s = emit (Call_GetApp appID) s in
     case GetApp w appID of
        Inl err \<Rightarrow> (Return 0 (errors_Wrap (Some err) ''failed to get app''), s)
      | Inr a \<Rightarrow>
     let s = emit (Call_license_Sync a) s in
     case license_Sync w a of
        Some err \<Rightarrow> (Return 0 (errors_Wrap (Some err) ''failed to sync license''), s)
      | None \<Rightarrow>
     let s = emit (Call_GetApp appID) s in
     case GetApp_reloaded w appID of
        Inl err \<Rightarrow> (Return 0 (errors_Wrap (Some err) ''failed to get app''), s)
      | Inr a \<Rightarrow>
     let s = emit Call_TempDir s in
     case TempDir w of
        Inl err \<Rightarrow> (Return 0 (errors_Wrap (Some err) ''failed to create temp dir''), s)
      | Inr archiveDir \<Rightarrow>
     case (let s = emit (Call_GetAppVersionArchive (ID a) (CurrentSequence a) archiveDir) s in
           case GetAppVersionArchive w (ID a) (CurrentSequence a) archiveDir of
             Some err \<Rightarrow>
               (Return 0 (errors_Wrap (Some err) ''failed to get app version archive''), True, s)
           | None \<Rightarrow> checkArchive w a archiveDir deploy skipPreflights isCLI s) of
        (r, removeArchiveDir, s) \<Rightarrow>
          (r, if removeArchiveDir then emit (Call_RemoveAll archiveDir) s else s))"

subsection \<open>The cron library's job object\<close>

text \<open>
  A \<open>*cron.Cron\<close> of github.com/robfig/cron/v3, as far as the package uses it: its
  entries, whether it runs, and the counter its entry ids come from. An entry keeps the
  schedule expression it was added with and the two variables its callback captured.
  \<open>AddFunc\<close> parses the expression and, if it parses, appends an entry with the next id;
  \<open>Remove\<close> drops the entry with the given id.
\<close>

record Entry =
  EntryID :: nat
  Schedule :: string
  jobAppID :: string
  jobAppSlug :: string

record Cron =
  entries :: "Entry list"
  running :: bool
  nextID :: nat

definition cron_New :: Cron where
  "cron_New = \<lparr>entries = [], running = False, nextID = 0\<rparr>"

definition cron_Remove :: "nat \<Rightarrow> Cron \<Rightarrow> Cron" where
  "cron_Remove i c = c\<lparr>entries := filter (\<lambda>e. EntryID e \<noteq> i) (entries c)\<rparr>"

definition cron_AddFunc :: "world \<Rightarrow> string \<Rightarrow> string \<Rightarrow> string \<Rightarrow> Cron \<Rightarrow> error option \<times> Cron" where
  "cron_AddFunc w spec capturedID capturedSlug c =
     (case cron_Parse w spec of
        Some err \<Rightarrow> (Some err, c)
      | None \<Rightarrow>
          (None, c\<lparr>nextID := nextID c + 1,
                    entries := entries c @
                      [\<lparr>EntryID = nextID c + 1, Schedule = spec,
                        jobAppID = capturedID, jobAppSlug = capturedSlug\<rparr>]\<rparr>))"

definition cron_Start :: "Cron \<Rightarrow> Cron" where
  "cron_Start c = c\<lparr>running := True\<rparr>"

definition cron_Stop :: "Cron \<Rightarrow> Cron" where
  "cron_Stop c = c\<lparr>running := False\<rparr>"

subsection \<open>Start, Configure, Stop\<close>

text \<open>
  The package-level \<open>jobs\<close> maps an application id to a pointer: \<open>jobs\<close> holds
  addresses and \<open>heap\<close> the job objects behind them, so that reusing an object and
  replacing it differ. \<open>next_addr\<close> is the address \<open>cron.New\<close> gives next. The map is
  made when the package is loaded and never set to nil, so the nil test of \<open>Stop\<close> has
  no branch here. The mutex is held for all of \<open>Configure\<close> after the airgap test; a
  sequential run does not see it.
\<close>

record registry =
  jobs :: "string \<rightharpoonup> nat"
  heap :: "nat \<Rightarrow> Cron"
  next_addr :: nat
  logged :: "event list"

definition rlog :: "event \<Rightarrow> registry \<Rightarrow> registry" where
  "rlog e r = r\<lparr>logged := logged r @ [e]\<rparr>"

definition Stop :: "string \<Rightarrow> registry \<Rightarrow> registry" where
  "Stop appID r =
     (case jobs r appID of
        Some job \<Rightarrow> r\<lparr>heap := (heap r)(job := cron_Stop (heap r job))\<rparr>
      | None \<Rightarrow> rlog (Log_Debug ''cron job not found for app'') r)"

definition Minute :: "nat \<Rightarrow> nat" where
  "Minute t = t div 60 mod 60"

definition Hour :: "nat \<Rightarrow> nat" where
  "Hour t = t div 3600 mod 24"

text \<open>Lines 80 to 83: the expression \<open>@default\<close> stands for at time \<open>t\<close>.\<close>

definition defaultCronSpec :: "nat \<Rightarrow> string" where
  "defaultCronSpec t =
     (let m = Minute t; h = Hour t mod 4
      in string_of_nat m @ '' '' @ string_of_nat h @ ''/4 * * *'')"

text \<open>Lines 89 to 92: every entry of the snapshot is removed from the job.\<close>

definition removeEntries :: "Cron \<Rightarrow> Cron" where
  "removeEntries c = fold (\<lambda>entry job. cron_Remove (EntryID entry) job) (entries c) c"

definition Configure :: "world \<Rightarrow> string \<Rightarrow> registry \<Rightarrow> error option \<times> registry" where
  "Configure w appID r =
     (case GetApp w appID of
        Inl err \<Rightarrow> (errors_Wrap (Some err) ''failed to get app'', r)
      | Inr a \<Rightarrow>
          if IsAirgap a then (None, r)
          else
            let r = rlog (Log_Debug ''configure update checker for app'') r;
                cronSpec = UpdateCheckerSpec a in
            if cronSpec = ''@never'' \<or> cronSpec = [] then (None, Stop (ID a) r)
            else
              let cronSpec = (if cronSpec = ''@default'' then defaultCronSpec (time_Now w)
                              else cronSpec);
                  (job, r) = (case jobs r (ID a) of
                                Some job \<Rightarrow>
                                  (job, r\<lparr>heap := (heap r)(job := removeEntries (heap r job))\<rparr>)
                              | None \<Rightarrow>
                                  (next_addr r,
                                   r\<lparr>heap := (heap r)(next_addr r := cron_New),
                                     next_addr := next_addr r + 1\<rparr>))
              in case cron_AddFunc w cronSpec (ID a) (Slug a) (heap r job) of
                   (Some err, c) \<Rightarrow>
                     (errors_Wrap (Some err) ''failed to add func'', r\<lparr>heap := (heap r)(job := c)\<rparr>)
                 | (None, c) \<Rightarrow>
                     (None, r\<lparr>heap := (heap r)(job := cron_Start c),
                              jobs := (jobs r)(ID a \<mapsto> job)\<rparr>))"

text \<open>Lines 38 to 45: airgapped applications are skipped, a failed \<open>Configure\<close> is logged.\<close>

fun StartLoop :: "world \<Rightarrow> app list \<Rightarrow> registry \<Rightarrow> registry" where
  "StartLoop w [] r = r"
| "StartLoop w (a # appsList) r =
     (if IsAirgap a then StartLoop w appsList r
      else case Configure w (ID a) r of
             (Some err, r) \<Rightarrow>
               StartLoop w appsList
                 (rlog (Log_Error (Wrapped err (''failed to configure app '' @ Slug a))) r)
           | (None, r) \<Rightarrow> StartLoop w appsList r)"

definition Start :: "world \<Rightarrow> registry \<Rightarrow> error option \<times> registry" where
  "Start w r =
     (let r = rlog (Log_Debug ''starting update checker'') r in
      case ListInstalledApps w of
        Inl err \<Rightarrow> (errors_Wrap (Some err) ''failed to list installed apps'', r)
      | Inr appsList \<Rightarrow> (None, StartLoop w appsList r))"

subsection \<open>Observations\<close>

text \<open>The calls of one kind in a trace.\<close>

fun is_download :: "event \<Rightarrow> bool" where
  "is_download (Call_DownloadUpdate i d c sk) = True"
| "is_download e = False"

fun is_deploy :: "event \<Rightarrow> bool" where
  "is_deploy (Call_DeployVersion i sq) = True"
| "is_deploy e = False"

definition is_call :: "event \<Rightarrow> bool" where
  "is_call e \<longleftrightarrow> is_download e \<or> is_deploy e"

fun is_setStatus :: "event \<Rightarrow> bool" where
  "is_setStatus (Call_SetTaskStatus name message status) = True"
| "is_setStatus e = False"

fun is_staging :: "event \<Rightarrow> bool" where
  "is_staging (Go_staging a d us dp sk cli) = True"
| "is_staging e = False"

text \<open>
  The active trigger entries of an application: the entries of its job when the job runs,
  none when it has no job or its job is stopped.
\<close>

definition triggers :: "registry \<Rightarrow> string \<Rightarrow> Entry list" where
  "triggers r appID =
     (case jobs r appID of
        None \<Rightarrow> []
      | Some job \<Rightarrow> if running (heap r job) then entries (heap r job) else [])"

text \<open>The schedule expression the cadence of an application stands for (lines 71 to 84).\<close>

definition resolved :: "world \<Rightarrow> app \<Rightarrow> string" where
  "resolved w a = (if UpdateCheckerSpec a = ''@default'' then defaultCronSpec (time_Now w)
                   else UpdateCheckerSpec a)"

text \<open>
  The cron library is not part of the package. By its documentation, in the five-field
  expression \<open>m h/step * * *\<close> the minute field matches minute \<open>m\<close>, the hour field
  matches the hours \<open>h\<close>, \<open>h + step\<close>, and so on up to 23 (it does not wrap around),
  and the three stars match every day, month and weekday. \<open>cron_due m h step u\<close> says
  that this expression is due in the minute that holds the time \<open>u\<close>.
\<close>

definition cron_due :: "nat \<Rightarrow> nat \<Rightarrow> nat \<Rightarrow> nat \<Rightarrow> bool" where
  "cron_due m h step u \<longleftrightarrow> Minute u = m \<and> h \<le> Hour u \<and> (Hour u - h) mod step = 0"

text \<open>
  The options \<open>CheckForUpdates\<close> queries the upstream with (lines 205 to 213), and the
  calls it has made when it reaches line 227: those of a check that found the gate open
  and whose steps up to the upstream query all succeeded.
\<close>

definition updatesOptions :: "world \<Rightarrow> app \<Rightarrow> kotskinds \<Rightarrow> string \<Rightarrow> GetUpdatesOptions" where
  "updatesOptions w a kotsKinds latestLicense =
     \<lparr>License = latestLicense,
      CurrentCursor = UpdateCursor kotsKinds,
      CurrentChannelID = ChannelID kotsKinds,
      CurrentChannelName = ChannelName kotsKinds,
      CurrentVersionLabel = VersionLabel kotsKinds,
      Silent = False,
      ReportingInfo = GetReportingInfo w (ID a)\<rparr>"

definition discoveryCalls ::
  "world \<Rightarrow> string \<Rightarrow> app \<Rightarrow> app \<Rightarrow> string \<Rightarrow> kotskinds \<Rightarrow> string \<Rightarrow> event list" where
  "discoveryCalls w appID a0 a archiveDir kotsKinds latestLicense =
     [Call_GetTaskStatus ''update-download'',
      Call_ClearTaskStatus ''update-download'',
      Call_GetApp appID,
      Call_license_Sync a0,
      Call_GetApp appID,
      Call_TempDir,
      Call_GetAppVersionArchive (ID a) (CurrentSequence a) archiveDir,
      Call_LoadKotsKindsFromPath archiveDir,
      Call_GetLatestLicenseForApp (ID a),
      Call_GetReportingInfo (ID a),
      Call_GetUpdates (''replicated://'' @ AppSlug kotsKinds)
        (updatesOptions w a kotsKinds latestLicense),
      Call_LastUpdateAtTime (ID a)]"

definition discovered ::
  "world \<Rightarrow> string \<Rightarrow> app \<Rightarrow> app \<Rightarrow> string \<Rightarrow> kotskinds \<Rightarrow> string \<Rightarrow> state \<Rightarrow> state" where
  "discovered w appID a0 a archiveDir kotsKinds latestLicense s =
     s\<lparr>task_status := (task_status s)(''update-download'' := None),
       trace := trace s @ discoveryCalls w appID a0 a archiveDir kotsKinds latestLicense\<rparr>"

text \<open>
  The path condition of a check that reaches the upstream's answer \<open>updates\<close>: the task
  status is read and is not \<open>running\<close>, it is cleared, the application is loaded as
  \<open>a0\<close>, its licence syncs, it is reloaded as \<open>a\<close>, the temporary directory
  \<open>archiveDir\<close> is made, the archive of the current version is put there and parsed to
  \<open>kotsKinds\<close>, the latest licence is read, and the upstream answers.
\<close>

definition discovers ::
  "world \<Rightarrow> state \<Rightarrow> string \<Rightarrow> app \<Rightarrow> app \<Rightarrow> string \<Rightarrow> kotskinds \<Rightarrow> string \<Rightarrow> update list \<Rightarrow> bool" where
  "discovers w s appID a0 a archiveDir kotsKinds latestLicense updates \<longleftrightarrow>
     GetTaskStatus_fails w = None \<and>
     (case task_status s ''update-download'' of None \<Rightarrow> [] | Some (message, status) \<Rightarrow> status)
       \<noteq> ''running'' \<and>
     ClearTaskStatus_fails w = None \<and>
     GetApp w appID = Inr a0 \<and>
     license_Sync w a0 = None \<and>
     GetApp_reloaded w appID = Inr a \<and>
     TempDir w = Inr archiveDir \<and>
     GetAppVersionArchive w (ID a) (CurrentSequence a) archiveDir = None \<and>
     LoadKotsKindsFromPath w archiveDir = Inr kotsKinds \<and>
     GetLatestLicenseForApp w (ID a) = Inr latestLicense \<and>
     GetUpdates w (''replicated://'' @ AppSlug kotsKinds)
       (updatesOptions w a kotsKinds latestLicense) = Inr updates"

subsection \<open>Concrete inputs\<close>

definition demo_app :: app where
  "demo_app = \<lparr>ID = ''app-1'', Slug = ''demo'', IsAirgap = False,
     UpdateCheckerSpec = ''@default'', CurrentSequence = 3\<rparr>"

definition demo_kinds :: kotskinds where
  "demo_kinds = \<lparr>UpdateCursor = ''c0'', ChannelID = ''ch'', ChannelName = ''Stable'',
     VersionLabel = ''1.0.0'', AppSlug = ''demo''\<rparr>"

text \<open>
  A world in which every collaborator succeeds, the upstream has nothing new, the
  application has versions 2 and 3 and its one downstream is at parent sequence 2.
  Downloading the release at cursor \<open>c1\<close> fails, \<open>c2\<close> becomes sequence 4 and any
  other cursor sequence 5.
\<close>

definition demo_world :: world where
  "demo_world = \<lparr>
     GetTaskStatus_fails = None,
     ClearTaskStatus_fails = None,
     SetTaskStatus_fails = None,
     GetApp = (\<lambda>i. if i = ''app-1'' then Inr demo_app else Inl (Failure ''app not found'')),
     GetApp_reloaded =
       (\<lambda>i. if i = ''app-1'' then Inr demo_app else Inl (Failure ''app not found'')),
     license_Sync = (\<lambda>a. None),
     TempDir = Inr ''/tmp/kotsadm1'',
     GetAppVersionArchive = (\<lambda>i sq d. None),
     LoadKotsKindsFromPath = (\<lambda>d. Inr demo_kinds),
     GetLatestLicenseForApp = (\<lambda>i. Inr ''license''),
     GetReportingInfo = (\<lambda>i. ''info''),
     GetUpdates = (\<lambda>uri opts. Inr []),
     LastUpdateAtTime = (\<lambda>i. None),
     GetVersions = (\<lambda>i. Inr [\<lparr>Sequence = 2\<rparr>, \<lparr>Sequence = 3\<rparr>]),
     ListDownstreamsForApp = (\<lambda>i. Inr [\<lparr>ClusterID = ''this-cluster''\<rparr>]),
     GetCurrentParentSequence = (\<lambda>i c. Inr 2),
     DeployVersion = (\<lambda>i sq. None),
     DownloadUpdate = (\<lambda>i d c sk. if c = ''c1'' then Inl (Failure ''download failed'')
        else if c = ''c2'' then Inr 4 else Inr 5),
     ListInstalledApps = Inr [demo_app],
     time_Now = 1000000,
     cron_Parse = (\<lambda>spec. if spec = ''bogus'' then Some (Failure ''bad spec'') else None)\<rparr>"

text \<open>
  The same world, except that the upstream has three new releases and the write of the
  last-checked time fails.
\<close>

definition failing_world :: world where
  "failing_world = demo_world
     \<lparr>GetUpdates := (\<lambda>uri opts. Inr [\<lparr>Cursor = ''c1''\<rparr>, \<lparr>Cursor = ''c2''\<rparr>, \<lparr>Cursor = ''c3''\<rparr>]),
      LastUpdateAtTime := (\<lambda>i. Some (Failure ''database is locked''))\<rparr>"

definition three_updates :: "update list" where
  "three_updates = [\<lparr>Cursor = ''c1''\<rparr>, \<lparr>Cursor = ''c2''\<rparr>, \<lparr>Cursor = ''c3''\<rparr>]"

definition idle_state :: state where
  "idle_state = \<lparr>task_status = Map.empty, trace = []\<rparr>"

definition running_state :: state where
  "running_state =
     \<lparr>task_status = [''update-download'' \<mapsto> (''1 Updates available...'', ''running'')],
      trace = []\<rparr>"

definition empty_registry :: registry where
  "empty_registry = \<lparr>jobs = Map.empty, heap = (\<lambda>p. cron_New), next_addr = 0, logged = []\<rparr>"

text \<open>An airgapped application with the default cadence, and a world that has it.\<close>

definition airgap_app :: app where
  "airgap_app = \<lparr>ID = ''app-2'', Slug = ''offline'', IsAirgap = True,
     UpdateCheckerSpec = ''@default'', CurrentSequence = 0\<rparr>"

definition airgap_world :: world where
  "airgap_world = demo_world
     \<lparr>GetApp := (\<lambda>i. if i = ''app-2'' then Inr airgap_app else Inl (Failure ''app not found''))\<rparr>"

text \<open>
  An application whose cadence is \<open>@never\<close>, a world that has it next to the first
  application, and a registry in which it has a running job with one entry.
\<close>

definition never_app :: app where
  "never_app = \<lparr>ID = ''app-3'', Slug = ''manual'', IsAirgap = False,
     UpdateCheckerSpec = ''@never'', CurrentSequence = 0\<rparr>"

definition never_world :: world where
  "never_world = demo_world
     \<lparr>GetApp := (\<lambda>i. if i = ''app-3'' then Inr never_app
                     else if i = ''app-1'' then Inr demo_app else Inl (Failure ''app not found'')),
      ListInstalledApps := Inr [demo_app, never_app]\<rparr>"

definition busy_registry :: registry where
  "busy_registry =
     \<lparr>jobs = [''app-3'' \<mapsto> 0],
      heap = (\<lambda>p. cron_New)
        (0 := \<lparr>entries = [\<lparr>EntryID = 1, Schedule = ''0 * * * *'', jobAppID = ''app-3'',
                            jobAppSlug = ''manual''\<rparr>],
               running = True, nextID = 1\<rparr>),
      next_addr = 1, logged = []\<rparr>"

section \<open>Properties\<close>

subsection \<open>Basic facts\<close>

lemma emit_simps:
  "trace (emit e s) = trace s @ [e]" "task_status (emit e s) = task_status s"
  by (simp_all add: emit_def)

text \<open>What \<open>checkArchive\<close> does once the archive parses, the licence is read and the
  upstream answers.\<close>

lemma checkArchive_discovered:
  assumes "LoadKotsKindsFromPath w archiveDir = Inr kotsKinds"
    and "GetLatestLicenseForApp w (ID a) = Inr latestLicense"
    and "GetUpdates w (''replicated://'' @ AppSlug kotsKinds)
       (updatesOptions w a kotsKinds latestLicense) = Inr updates"
  shows "checkArchive w a archiveDir deploy skipPreflights isCLI s =
     (let s1 = s\<lparr>trace := trace s @
                 [Call_LoadKotsKindsFromPath archiveDir,
                  Call_GetLatestLicenseForApp (ID a),
                  Call_GetReportingInfo (ID a),
                  Call_GetUpdates (''replicated://'' @ AppSlug kotsKinds)
                    (updatesOptions w a kotsKinds latestLicense),
                  Call_LastUpdateAtTime (ID a)]\<rparr> in
      if LastUpdateAtTime w (ID a) \<noteq> None then (Return 0 None, True, s1)
      else if updates = [] then
        (case noUpdates w a deploy s1 of (r, s2) \<Rightarrow> (r, True, s2))
      else
        (case store_SetTaskStatus w ''update-download''
                (string_of_nat (length updates) @ '' Updates available...'') ''running'' s1 of
           (Some err, s2) \<Rightarrow>
             (Return 0 (Some (Wrapped err ''failed to set task status'')), True, s2)
         | (None, s2) \<Rightarrow>
             (Return (int (length updates)) None, False,
              emit (Go_staging a archiveDir updates deploy skipPreflights isCLI) s2)))"
  using assms unfolding checkArchive_def Let_def
  by (simp add: emit_def updatesOptions_def store_SetTaskStatus_def split: option.splits)

text \<open>What \<open>CheckForUpdates\<close> does on the path that reaches the upstream's answer.\<close>

lemma CheckForUpdates_discovered:
  assumes d: "discovers w s appID a0 a archiveDir kotsKinds latestLicense updates"
  shows "CheckForUpdates w appID deploy skipPreflights isCLI s =
     (let s1 = discovered w appID a0 a archiveDir kotsKinds latestLicense s in
      if LastUpdateAtTime w (ID a) \<noteq> None then (Return 0 None, emit (Call_RemoveAll archiveDir) s1)
      else if updates = [] then
        (case noUpdates w a deploy s1 of (r, s2) \<Rightarrow> (r, emit (Call_RemoveAll archiveDir) s2))
      else
        (case store_SetTaskStatus w ''update-download''
                (string_of_nat (length updates) @ '' Updates available...'') ''running'' s1 of
           (Some err, s2) \<Rightarrow>
             (Return 0 (Some (Wrapped err ''failed to set task status'')),
              emit (Call_RemoveAll archiveDir) s2)
         | (None, s2) \<Rightarrow>
             (Return (int (length updates)) None,
              emit (Go_staging a archiveDir updates deploy skipPreflights isCLI) s2)))"
proof -
  from d have c: "LoadKotsKindsFromPath w archiveDir = Inr kotsKinds"
      "GetLatestLicenseForApp w (ID a) = Inr latestLicense"
      "GetUpdates w (''replicated://'' @ AppSlug kotsKinds)
         (updatesOptions w a kotsKinds latestLicense) = Inr updates"
    unfolding discovers_def by blast+
  from d have p: "GetTaskStatus_fails w = None"
      "(case task_status s ''update-download'' of None \<Rightarrow> [] | Some (message, status) \<Rightarrow> status)
         \<noteq> ''running''"
      "ClearTaskStatus_fails w = None" "GetApp w appID = Inr a0" "license_Sync w a0 = None"
      "GetApp_reloaded w appID = Inr a" "TempDir w = Inr archiveDir"
      "GetAppVersionArchive w (ID a) (CurrentSequence a) archiveDir = None"
    unfolding discovers_def by blast+
  note ca = checkArchive_discovered [OF c, of deploy skipPreflights isCLI]
  show ?thesis
    using p unfolding CheckForUpdates_def Let_def
    by (simp add: ca store_GetTaskStatus_def store_ClearTaskStatus_def store_SetTaskStatus_def
        emit_def discovered_def discoveryCalls_def Let_def split: option.splits prod.splits)
qed

lemma noUpdates_task_status: "task_status (snd (noUpdates w a deploy s)) = task_status s"
  by (simp add: noUpdates_def Let_def emit_def split: sum.splits list.splits option.splits)

text \<open>
  A run of \<open>checkArchive\<close> leaves the task status as it was, unless it returns a
  positive count and no error; so does a run of \<open>CheckForUpdates\<close>, up to the clearing.
\<close>

lemma checkArchive_gate:
  assumes "checkArchive w a archiveDir deploy skipPreflights isCLI s = (r, b, s')"
  shows "task_status s' = task_status s \<or> (\<exists>n. 0 < n \<and> r = Return n None)"
proof -
  have nu: "\<And>s1 r1 s2. noUpdates w a deploy s1 = (r1, s2) \<Longrightarrow> task_status s2 = task_status s1"
    using noUpdates_task_status [of w a deploy] by (metis snd_conv)
  show ?thesis
    using assms unfolding checkArchive_def Let_def
    by (auto simp: emit_def store_SetTaskStatus_def dest!: nu
        split: sum.splits option.splits prod.splits if_splits)
qed

lemma CheckForUpdates_gate:
  assumes "CheckForUpdates w appID deploy skipPreflights isCLI s = (r, s')"
  shows "task_status s' = task_status s
       \<or> task_status s' = (task_status s)(''update-download'' := None)
       \<or> (\<exists>n. 0 < n \<and> r = Return n None)"
proof -
  have ca: "\<And>a d s1 r1 b s2. checkArchive w a d deploy skipPreflights isCLI s1 = (r1, b, s2) \<Longrightarrow>
      task_status s2 = task_status s1 \<or> (\<exists>n. 0 < n \<and> r1 = Return n None)"
    by (rule checkArchive_gate)
  show ?thesis
    using assms unfolding CheckForUpdates_def Let_def
    by (auto simp: emit_def store_GetTaskStatus_def store_ClearTaskStatus_def
        dest!: ca split: sum.splits option.splits prod.splits if_splits)
qed

lemma is_deploy_discoveryCalls:
  "filter is_deploy (discoveryCalls w appID a0 a archiveDir kotsKinds latestLicense) = []"
  by (simp add: discoveryCalls_def)

lemma discovered_simps:
  "filter is_deploy (trace (discovered w appID a0 a archiveDir kotsKinds latestLicense s)) =
     filter is_deploy (trace s)"
  "task_status (discovered w appID a0 a archiveDir kotsKinds latestLicense s) =
     (task_status s)(''update-download'' := None)"
  by (simp_all add: discovered_def is_deploy_discoveryCalls)



lemma discovers_demo:
  "discovers demo_world idle_state ''app-1'' demo_app demo_app ''/tmp/kotsadm1'' demo_kinds
     ''license'' []"
  by (simp add: discovers_def demo_world_def idle_state_def demo_app_def)



lemma noUpdates_setStatus:
  "filter is_setStatus (trace (snd (noUpdates w a deploy s))) = filter is_setStatus (trace s)"
  by (simp add: noUpdates_def Let_def emit_def split: sum.splits list.splits option.splits)

lemma checkArchive_setStatus:
  assumes "checkArchive w a archiveDir deploy skipPreflights isCLI s = (r, b, s')"
  shows "filter is_setStatus (trace s') = filter is_setStatus (trace s)
       \<or> SetTaskStatus_fails w \<noteq> None \<or> (\<exists>n. 0 < n \<and> r = Return n None)"
proof -
  have nu: "\<And>s1 r1 s2. noUpdates w a deploy s1 = (r1, s2) \<Longrightarrow>
      filter is_setStatus (trace s2) = filter is_setStatus (trace s1)"
    using noUpdates_setStatus [of w a deploy] by (metis snd_conv)
  show ?thesis
    using assms unfolding checkArchive_def Let_def
    by (auto simp: emit_def store_SetTaskStatus_def dest!: nu
        split: sum.splits option.splits prod.splits if_splits)
qed

lemma CheckForUpdates_setStatus:
  assumes "CheckForUpdates w appID deploy skipPreflights isCLI s = (r, s')"
  shows "filter is_setStatus (trace s') = filter is_setStatus (trace s)
       \<or> SetTaskStatus_fails w \<noteq> None \<or> (\<exists>n. 0 < n \<and> r = Return n None)"
proof -
  have ca: "\<And>a d s1 r1 b s2. checkArchive w a d deploy skipPreflights isCLI s1 = (r1, b, s2) \<Longrightarrow>
      filter is_setStatus (trace s2) = filter is_setStatus (trace s1)
       \<or> SetTaskStatus_fails w \<noteq> None \<or> (\<exists>n. 0 < n \<and> r1 = Return n None)"
    by (rule checkArchive_setStatus)
  show ?thesis
    using assms unfolding CheckForUpdates_def Let_def
    by (auto simp: emit_def store_GetTaskStatus_def store_ClearTaskStatus_def
        dest!: ca split: sum.splits option.splits prod.splits if_splits)
qed

lemma CheckForUpdates_last_checked_fails:
  assumes "discovers w s appID a0 a archiveDir kotsKinds latestLicense updates"
    and "LastUpdateAtTime w (ID a) = Some e"
  shows "CheckForUpdates w appID deploy skipPreflights isCLI s =
           (Return 0 None,
            emit (Call_RemoveAll archiveDir)
              (discovered w appID a0 a archiveDir kotsKinds latestLicense s))"
  using CheckForUpdates_discovered [OF assms(1), of deploy skipPreflights isCLI] assms(2)
  by (simp add: Let_def)

lemma discovers_failing:
  "discovers failing_world idle_state ''app-1'' demo_app demo_app ''/tmp/kotsadm1'' demo_kinds
     ''license'' [\<lparr>Cursor = ''c1''\<rparr>, \<lparr>Cursor = ''c2''\<rparr>, \<lparr>Cursor = ''c3''\<rparr>]"
  by (simp add: discovers_def failing_world_def demo_world_def idle_state_def demo_app_def)

text \<open>One turn of the staging loop, and what the whole loop adds to the trace.\<close>

lemma is_call_simps [simp]:
  "is_call (Call_DownloadUpdate i d c sk)" "is_call (Call_DeployVersion i sq)"
  "\<not> is_call (Log_Error err)" "\<not> is_call (Go_ReportAppInfo i sq sk cli)"
  "\<not> is_call (Call_RemoveAll d)"
  by (simp_all add: is_call_def)

lemma stagingLoop_Cons:
  "\<exists>evs. stagingLoop w a d deploy sk cli n index (u # us) s =
           stagingLoop w a d deploy sk cli n (Suc index) us
             (s\<lparr>trace := trace s @ Call_DownloadUpdate (ID a) d (Cursor u) sk # evs\<rparr>)
         \<and> (\<forall>err. DownloadUpdate w (ID a) d (Cursor u) sk = Inl err \<longrightarrow> evs = [Log_Error err])
         \<and> filter is_call evs =
             (if deploy \<and> index = n - 1 then
                (case DownloadUpdate w (ID a) d (Cursor u) sk of
                   Inl err \<Rightarrow> []
                 | Inr sequence \<Rightarrow> [Call_DeployVersion (ID a) sequence])
              else [])"
  by (cases "DownloadUpdate w (ID a) d (Cursor u) sk"; cases deploy; cases "index = n - 1";
      cases "DeployVersion w (ID a) (projr (DownloadUpdate w (ID a) d (Cursor u) sk))")
     (auto simp: emit_def Let_def)

lemma stagingLoop_calls:
  "index + length us = n \<Longrightarrow>
   filter is_call (trace (stagingLoop w a d deploy sk cli n index us s)) =
     filter is_call (trace s) @
     map (\<lambda>u. Call_DownloadUpdate (ID a) d (Cursor u) sk) us @
     (if deploy \<and> us \<noteq> [] then
        (case DownloadUpdate w (ID a) d (Cursor (last us)) sk of
           Inl err \<Rightarrow> []
         | Inr sequence \<Rightarrow> [Call_DeployVersion (ID a) sequence])
      else [])"
proof (induction us arbitrary: index s)
  case Nil
  then show ?case by simp
next
  case (Cons u us)
  from Cons.prems have n: "Suc index + length us = n" by simp
  obtain evs where
    step: "stagingLoop w a d deploy sk cli n index (u # us) s =
       stagingLoop w a d deploy sk cli n (Suc index) us
         (s\<lparr>trace := trace s @ Call_DownloadUpdate (ID a) d (Cursor u) sk # evs\<rparr>)"
    and evs: "filter is_call evs =
             (if deploy \<and> index = n - 1 then
                (case DownloadUpdate w (ID a) d (Cursor u) sk of
                   Inl err \<Rightarrow> []
                 | Inr sequence \<Rightarrow> [Call_DeployVersion (ID a) sequence])
              else [])"
    using stagingLoop_Cons by blast
  have last: "index = n - Suc 0 \<longleftrightarrow> us = []" using Cons.prems by auto
  show ?case
    unfolding step Cons.IH [OF n]
    using last by (cases "us = []") (simp_all add: evs)
qed


lemma stagingLoop_mono:
  "set (trace s) \<subseteq> set (trace (stagingLoop w a d deploy sk cli n index us s))"
proof (induction us arbitrary: index s)
  case Nil
  then show ?case by simp
next
  case (Cons u us)
  obtain evs where
    step: "stagingLoop w a d deploy sk cli n index (u # us) s =
       stagingLoop w a d deploy sk cli n (Suc index) us
         (s\<lparr>trace := trace s @ Call_DownloadUpdate (ID a) d (Cursor u) sk # evs\<rparr>)"
    using stagingLoop_Cons by blast
  let ?s = "s\<lparr>trace := trace s @ Call_DownloadUpdate (ID a) d (Cursor u) sk # evs\<rparr>"
  have "set (trace s) \<subseteq> set (trace ?s)" by auto
  also have "\<dots> \<subseteq> set (trace (stagingLoop w a d deploy sk cli n (Suc index) us ?s))"
    by (rule Cons.IH)
  finally show ?case unfolding step .
qed

lemma stagingLoop_logs:
  "u \<in> set us \<Longrightarrow> DownloadUpdate w (ID a) d (Cursor u) sk = Inl err \<Longrightarrow>
   Log_Error err \<in> set (trace (stagingLoop w a d deploy sk cli n index us s))"
proof (induction us arbitrary: index s)
  case Nil
  then show ?case by simp
next
  case (Cons x us)
  from stagingLoop_Cons [of w a d deploy sk cli n index x us s]
  obtain evs where c:
    "stagingLoop w a d deploy sk cli n index (x # us) s =
       stagingLoop w a d deploy sk cli n (Suc index) us
         (s\<lparr>trace := trace s @ Call_DownloadUpdate (ID a) d (Cursor x) sk # evs\<rparr>)
     \<and> (\<forall>err. DownloadUpdate w (ID a) d (Cursor x) sk = Inl err \<longrightarrow> evs = [Log_Error err])
     \<and> filter is_call evs =
             (if deploy \<and> index = n - 1 then
                (case DownloadUpdate w (ID a) d (Cursor x) sk of
                   Inl err \<Rightarrow> []
                 | Inr sequence \<Rightarrow> [Call_DeployVersion (ID a) sequence])
              else [])" ..
  let ?s = "s\<lparr>trace := trace s @ Call_DownloadUpdate (ID a) d (Cursor x) sk # evs\<rparr>"
  from c have step: "stagingLoop w a d deploy sk cli n index (x # us) s =
       stagingLoop w a d deploy sk cli n (Suc index) us ?s"
    by (rule conjunct1)
  from c have evs:
    "\<forall>err. DownloadUpdate w (ID a) d (Cursor x) sk = Inl err \<longrightarrow> evs = [Log_Error err]"
    by (rule conjunct1 [OF conjunct2])
  show ?case
  proof (cases "u = x")
    case True
    from True Cons.prems(2)
    have "DownloadUpdate w (ID a) d (Cursor x) sk = Inl err" by simp
    from evs [rule_format, OF this] have "evs = [Log_Error err]" .
    then have "Log_Error err \<in> set (trace ?s)" by simp
    then have "Log_Error err \<in> set (trace (stagingLoop w a d deploy sk cli n (Suc index) us ?s))"
      by (rule subsetD [OF stagingLoop_mono])
    then show ?thesis unfolding step .
  next
    case False
    with Cons.prems have "u \<in> set us" by simp
    from Cons.IH [OF this Cons.prems(2)] show ?thesis
      unfolding step .
  qed
qed

text \<open>The registry: removing the entries of a job, and a successful \<open>Configure\<close>.\<close>

lemma fold_cron_Remove:
  "fold (\<lambda>entry job. cron_Remove (EntryID entry) job) es c =
     c\<lparr>entries := filter (\<lambda>e. EntryID e \<notin> EntryID ` set es) (entries c)\<rparr>"
proof (induction es arbitrary: c)
  case Nil
  then show ?case by simp
next
  case (Cons e es)
  let ?f = "\<lambda>entry job. cron_Remove (EntryID entry) job"
  have "fold ?f (e # es) c = fold ?f es (cron_Remove (EntryID e) c)" by simp
  also have "\<dots> = (cron_Remove (EntryID e) c)
      \<lparr>entries := filter (\<lambda>x. EntryID x \<notin> EntryID ` set es)
                   (entries (cron_Remove (EntryID e) c))\<rparr>"
    by (rule Cons.IH)
  also have "\<dots> = c\<lparr>entries := filter (\<lambda>x. EntryID x \<notin> EntryID ` set (e # es)) (entries c)\<rparr>"
    by (simp add: cron_Remove_def conj_commute)
  finally show ?case .
qed

lemma removeEntries_eq: "removeEntries c = c\<lparr>entries := []\<rparr>"
proof -
  have "filter (\<lambda>e. EntryID e \<notin> EntryID ` set (entries c)) (entries c) = []"
    by (simp add: filter_empty_conv)
  then show ?thesis by (simp add: removeEntries_def fold_cron_Remove)
qed

lemma Configure_enabled:
  assumes "GetApp w appID = Inr a" and "\<not> IsAirgap a"
    and "UpdateCheckerSpec a \<noteq> ''@never''" and "UpdateCheckerSpec a \<noteq> []"
    and "Configure w appID r = (None, r')"
  shows "jobs r' = (jobs r)(ID a \<mapsto> (case jobs r (ID a) of Some job \<Rightarrow> job | None \<Rightarrow> next_addr r))"
    and "heap r' (case jobs r (ID a) of Some job \<Rightarrow> job | None \<Rightarrow> next_addr r) =
      (let k = (case jobs r (ID a) of Some job \<Rightarrow> nextID (heap r job) | None \<Rightarrow> 0) in
       \<lparr>entries = [\<lparr>EntryID = k + 1, Schedule = resolved w a,
                     jobAppID = ID a, jobAppSlug = Slug a\<rparr>],
        running = True, nextID = k + 1\<rparr>)"
  using assms
  by (auto simp: Configure_def Let_def rlog_def cron_AddFunc_def cron_Start_def cron_New_def
      removeEntries_eq resolved_def split: option.splits if_splits)

lemma string_of_nat_digit: "n < 10 \<Longrightarrow> string_of_nat n = [''0123456789'' ! n]"
  by (subst string_of_nat.simps) simp

lemma string_of_nat_step:
  "10 \<le> n \<Longrightarrow> string_of_nat n = string_of_nat (n div 10) @ [''0123456789'' ! (n mod 10)]"
  by (subst string_of_nat.simps) simp

lemma defaultCronSpec_demo:
  "defaultCronSpec 1000000 = ''46 1/4 * * *''" "defaultCronSpec 1000019 = ''46 1/4 * * *''"
  "defaultCronSpec 1000100 = ''48 1/4 * * *''"
  by (simp_all add: defaultCronSpec_def Minute_def Hour_def string_of_nat_digit string_of_nat_step)


lemma Stop_simps:
  "jobs (Stop i r) = jobs r" "entries (heap (Stop i r) p) = entries (heap r p)"
  "triggers (Stop i r) i = []"
  by (auto simp: Stop_def rlog_def cron_Stop_def triggers_def split: option.splits)

lemma Configure_jobs_other:
  assumes "\<And>b. GetApp w x = Inr b \<Longrightarrow> ID b = k \<Longrightarrow>
             IsAirgap b \<or> UpdateCheckerSpec b = ''@never'' \<or> UpdateCheckerSpec b = []"
  shows "jobs (snd (Configure w x r)) k = jobs r k"
proof (cases "GetApp w x")
  case (Inl err)
  then show ?thesis by (simp add: Configure_def)
next
  case (Inr b)
  show ?thesis
  proof (cases "ID b = k")
    case True
    with assms [OF Inr] show ?thesis
      using Inr by (auto simp: Configure_def Let_def Stop_simps rlog_def)
  next
    case False
    with Inr show ?thesis
      by (auto simp: Configure_def Let_def Stop_simps rlog_def cron_AddFunc_def
          split: option.splits prod.splits)
  qed
qed

lemma StartLoop_jobs_other:
  assumes "\<And>x b. GetApp w x = Inr b \<Longrightarrow> ID b = k \<Longrightarrow>
             IsAirgap b \<or> UpdateCheckerSpec b = ''@never'' \<or> UpdateCheckerSpec b = []"
  shows "jobs (StartLoop w appsList r) k = jobs r k"
proof (induction appsList arbitrary: r)
  case Nil
  then show ?case by simp
next
  case (Cons x xs)
  have c: "jobs (snd (Configure w (ID x) r)) k = jobs r k"
    by (rule Configure_jobs_other) (rule assms)
  show ?case
  proof (cases "IsAirgap x")
    case True
    then show ?thesis by (simp add: Cons.IH)
  next
    case False
    obtain e r' where cr: "Configure w (ID x) r = (e, r')" by (cases "Configure w (ID x) r")
    with c have "jobs r' k = jobs r k" by simp
    with False cr show ?thesis
      by (cases e) (simp_all add: Cons.IH rlog_def)
  qed
qed

text \<open>Minutes, hours and the four-hour step.\<close>

lemma hour_step_4:
  fixes h H :: nat
  assumes "h < 4"
  shows "(h \<le> H \<and> (H - h) mod 4 = 0) \<longleftrightarrow> H mod 4 = h"
proof
  assume a: "h \<le> H \<and> (H - h) mod 4 = 0"
  then have "H = (H - h) + h" by simp
  then have "H mod 4 = ((H - h) mod 4 + h mod 4) mod 4" by (metis mod_add_eq)
  with a assms show "H mod 4 = h" by simp
next
  assume b: "H mod 4 = h"
  then have "h \<le> H" by (metis mod_less_eq_dividend)
  moreover have "H - h = 4 * (H div 4)" using b by (metis minus_mod_eq_mult_div)
  ultimately show "h \<le> H \<and> (H - h) mod 4 = 0" by simp
qed

lemma minutes_mod_240:
  fixes q :: nat
  shows "q mod 240 = 60 * (q div 60 mod 4) + q mod 60"
  using mod_mult2_eq [of q 60 4] by simp

lemma pack:
  fixes x y A B :: nat
  assumes "x < 60" "y < 60"
  shows "(x = y \<and> A = B) \<longleftrightarrow> 60 * A + x = 60 * B + y"
proof
  assume "x = y \<and> A = B" then show "60 * A + x = 60 * B + y" by simp
next
  assume e: "60 * A + x = 60 * B + y"
  then have "(60 * A + x) div 60 = (60 * B + y) div 60" by simp
  with assms have "A = B" by simp
  with e show "x = y \<and> A = B" by simp
qed

lemma due_iff:
  fixes t u :: nat
  shows "cron_due (Minute t) (Hour t mod 4) 4 u \<longleftrightarrow> u div 60 mod 240 = t div 60 mod 240"
proof -
  define q where "q = u div 60"
  define p where "p = t div 60"
  have hu: "u div 3600 = q div 60" and ht: "t div 3600 = p div 60"
    by (simp_all add: q_def p_def div_mult2_eq [symmetric])
  have m4: "q div 60 mod 24 mod 4 = q div 60 mod 4" "p div 60 mod 24 mod 4 = p div 60 mod 4"
    by (simp_all add: mod_mod_cancel)
  have "cron_due (Minute t) (Hour t mod 4) 4 u \<longleftrightarrow>
        q mod 60 = p mod 60 \<and> (p div 60 mod 4 \<le> q div 60 mod 24 \<and>
        (q div 60 mod 24 - p div 60 mod 4) mod 4 = 0)"
    unfolding cron_due_def Minute_def Hour_def hu ht q_def [symmetric] p_def [symmetric] m4
    by simp
  also have "\<dots> \<longleftrightarrow> q mod 60 = p mod 60 \<and> q div 60 mod 4 = p div 60 mod 4"
    unfolding hour_step_4 [of "p div 60 mod 4" "q div 60 mod 24", simplified] m4 ..
  also have "\<dots> \<longleftrightarrow> 60 * (q div 60 mod 4) + q mod 60 = 60 * (p div 60 mod 4) + p mod 60"
    by (rule pack) simp_all
  also have "\<dots> \<longleftrightarrow> q mod 240 = p mod 240"
    by (simp only: minutes_mod_240)
  finally show ?thesis by (simp only: q_def p_def)
qed

subsection \<open>The single-flight gate\<close>

text \<open>
  C1. A call of \<open>CheckForUpdates\<close> made while the task status of \<open>update-download\<close>
  reads \<open>running\<close> returns \<open>(0, nil)\<close>, and the only things it did are the read of the
  task status and a debug log: no licence sync, no load of the archive, no query of the
  upstream, and the task status is as it was.
\<close>

theorem CheckForUpdates_running_gate:
  assumes "GetTaskStatus_fails w = None"
    and "task_status s ''update-download'' = Some (message, ''running'')"
  shows "CheckForUpdates w appID deploy skipPreflights isCLI s =
           (Return 0 None,
            s\<lparr>trace := trace s @ [Call_GetTaskStatus ''update-download'',
                 Log_Debug ''update-download is already running, not starting a new one'']\<rparr>)"
  using assms by (simp add: CheckForUpdates_def store_GetTaskStatus_def emit_def)

theorem CheckForUpdates_running_gate_witness:
  "GetTaskStatus_fails demo_world = None \<and>
   task_status running_state ''update-download'' = Some (''1 Updates available...'', ''running'') \<and>
   CheckForUpdates demo_world ''app-1'' True False False running_state =
     (Return 0 None,
      running_state\<lparr>trace := [Call_GetTaskStatus ''update-download'',
         Log_Debug ''update-download is already running, not starting a new one'']\<rparr>)"
  using CheckForUpdates_running_gate
    [of demo_world running_state "''1 Updates available...''" "''app-1''" True False False]
  by (simp add: demo_world_def running_state_def)

text \<open>
  C7. Whenever \<open>CheckForUpdates\<close> returns an error, or more generally a zero count,
  that call has not set the task status to \<open>running\<close>: the task-status table is the
  one the call started with, or that one with the row of \<open>update-download\<close> cleared,
  and the call made no \<open>SetTaskStatus\<close> call at all, unless that write is the step that
  failed. So a failed licence sync, archive load, upstream query or last-checked write ends
  the call before the gate is set: the status is written only once updates were found.
\<close>

theorem CheckForUpdates_error_leaves_gate:
  assumes "CheckForUpdates w appID deploy skipPreflights isCLI s = (Return n err, s')"
    and "err \<noteq> None \<or> n = 0"
  shows "(task_status s' = task_status s
          \<or> task_status s' = (task_status s)(''update-download'' := None))
       \<and> (filter is_setStatus (trace s') = filter is_setStatus (trace s)
          \<or> SetTaskStatus_fails w \<noteq> None)"
  using CheckForUpdates_gate [OF assms(1)] CheckForUpdates_setStatus [OF assms(1)] assms(2)
  by auto

theorem CheckForUpdates_error_leaves_gate_witness:
  "fst (CheckForUpdates (demo_world\<lparr>GetUpdates := (\<lambda>uri opts. Inl (Failure ''upstream unreachable''))\<rparr>)
          ''app-1'' False False False idle_state) =
     Return 0 (Some (Wrapped (Failure ''upstream unreachable'') ''failed to get updates'')) \<and>
   task_status (snd (CheckForUpdates
          (demo_world\<lparr>GetUpdates := (\<lambda>uri opts. Inl (Failure ''upstream unreachable''))\<rparr>)
          ''app-1'' False False False idle_state)) = Map.empty \<and>
   filter is_setStatus (trace (snd (CheckForUpdates
          (demo_world\<lparr>GetUpdates := (\<lambda>uri opts. Inl (Failure ''upstream unreachable''))\<rparr>)
          ''app-1'' False False False idle_state))) = []"
proof -
  let ?w = "demo_world\<lparr>GetUpdates := (\<lambda>uri opts. Inl (Failure ''upstream unreachable''))\<rparr>"
  let ?e = "Wrapped (Failure ''upstream unreachable'') ''failed to get updates''"
  have f: "fst (CheckForUpdates ?w ''app-1'' False False False idle_state) = Return 0 (Some ?e)"
    by (simp add: CheckForUpdates_def checkArchive_def store_GetTaskStatus_def
        store_ClearTaskStatus_def demo_world_def idle_state_def demo_app_def Let_def
        split: prod.splits)
  then have h: "CheckForUpdates ?w ''app-1'' False False False idle_state =
      (Return 0 (Some ?e), snd (CheckForUpdates ?w ''app-1'' False False False idle_state))"
    by (metis prod.collapse)
  have n: "Some ?e \<noteq> None \<or> (0::int) = 0" by simp
  from CheckForUpdates_error_leaves_gate [OF h n]
  show ?thesis using f by (simp add: idle_state_def demo_world_def)
qed

subsection \<open>No update found\<close>



text \<open>
  C9. A check that finds no update and has \<open>deploy\<close> set, for an application with no
  version record, returns \<open>(0, e)\<close> with \<open>e\<close> the error \<open>no versions found\<close>; the
  only call it makes after the discovery is the read of the versions, so nothing is deployed.
\<close>

theorem CheckForUpdates_no_versions:
  assumes "discovers w s appID a0 a archiveDir kotsKinds latestLicense []"
    and "LastUpdateAtTime w (ID a) = None"
    and "GetVersions w (ID a) = Inr []"
  shows "CheckForUpdates w appID True skipPreflights isCLI s =
           (Return 0 (Some (Failure ''no versions found'')),
            emit (Call_RemoveAll archiveDir)
              (emit (Call_GetVersions (ID a))
                 (discovered w appID a0 a archiveDir kotsKinds latestLicense s)))
       \<and> filter is_deploy (trace (snd (CheckForUpdates w appID True skipPreflights isCLI s))) =
           filter is_deploy (trace s)"
  using CheckForUpdates_discovered [OF assms(1), of True skipPreflights isCLI] assms(2,3)
  by (simp add: Let_def noUpdates_def errors_New_def emit_simps discovered_simps)

theorem CheckForUpdates_no_versions_witness:
  "discovers (demo_world\<lparr>GetVersions := (\<lambda>i. Inr [])\<rparr>) idle_state ''app-1'' demo_app demo_app
     ''/tmp/kotsadm1'' demo_kinds ''license'' [] \<and>
   fst (CheckForUpdates (demo_world\<lparr>GetVersions := (\<lambda>i. Inr [])\<rparr>) ''app-1'' True False False
          idle_state) = Return 0 (Some (Failure ''no versions found'')) \<and>
   filter is_deploy
     (trace (snd (CheckForUpdates (demo_world\<lparr>GetVersions := (\<lambda>i. Inr [])\<rparr>) ''app-1'' True
                    False False idle_state))) = []"
proof -
  let ?w = "demo_world\<lparr>GetVersions := (\<lambda>i. Inr [])\<rparr>"
  have h1: "discovers ?w idle_state ''app-1'' demo_app demo_app ''/tmp/kotsadm1'' demo_kinds
     ''license'' []"
    using discovers_demo by (simp add: discovers_def updatesOptions_def)
  have h2: "LastUpdateAtTime ?w (ID demo_app) = None" and h3: "GetVersions ?w (ID demo_app) = Inr []"
    by (simp_all add: demo_world_def)
  from CheckForUpdates_no_versions [OF h1 h2 h3, of False False]
  show ?thesis using h1 by (simp add: idle_state_def emit_simps discovered_simps)
qed

text \<open>
  C10. On the path with no update and \<open>deploy\<close> set, once the versions are read and
  are not empty, the first downstream is read with no test of the list's length: the call
  panics with an index out of range exactly when the application has no downstream.
\<close>

theorem CheckForUpdates_first_downstream:
  assumes "discovers w s appID a0 a archiveDir kotsKinds latestLicense []"
    and "LastUpdateAtTime w (ID a) = None"
    and "GetVersions w (ID a) = Inr allVersions" and "allVersions \<noteq> []"
    and "ListDownstreamsForApp w (ID a) = Inr downstreams"
  shows "(\<exists>msg. fst (CheckForUpdates w appID True skipPreflights isCLI s) = Panic msg)
           \<longleftrightarrow> downstreams = []"
  using CheckForUpdates_discovered [OF assms(1), of True skipPreflights isCLI] assms(2-5)
  by (simp add: Let_def noUpdates_def split: list.splits sum.splits option.splits)

theorem CheckForUpdates_first_downstream_witness:
  "discovers (demo_world\<lparr>ListDownstreamsForApp := (\<lambda>i. Inr [])\<rparr>) idle_state ''app-1'' demo_app
     demo_app ''/tmp/kotsadm1'' demo_kinds ''license'' [] \<and>
   ListDownstreamsForApp (demo_world\<lparr>ListDownstreamsForApp := (\<lambda>i. Inr [])\<rparr>) (ID demo_app)
     = Inr [] \<and>
   (\<exists>msg. fst (CheckForUpdates (demo_world\<lparr>ListDownstreamsForApp := (\<lambda>i. Inr [])\<rparr>) ''app-1''
                 True False False idle_state) = Panic msg)"
proof -
  let ?w = "demo_world\<lparr>ListDownstreamsForApp := (\<lambda>i. Inr [])\<rparr>"
  have h1: "discovers ?w idle_state ''app-1'' demo_app demo_app ''/tmp/kotsadm1'' demo_kinds
     ''license'' []"
    using discovers_demo by (simp add: discovers_def updatesOptions_def)
  have h2: "LastUpdateAtTime ?w (ID demo_app) = None"
    and h3: "GetVersions ?w (ID demo_app) = Inr [\<lparr>Sequence = 2\<rparr>, \<lparr>Sequence = 3\<rparr>]"
    and h4: "[\<lparr>Sequence = 2\<rparr>, \<lparr>Sequence = 3\<rparr>] \<noteq> []"
    and h5: "ListDownstreamsForApp ?w (ID demo_app) = Inr []"
    by (simp_all add: demo_world_def)
  from CheckForUpdates_first_downstream [OF h1 h2 h3 h4 h5, of False False]
  show ?thesis using h1 h5 by simp
qed

subsection \<open>The last-checked time\<close>

text \<open>
  C6, as the code has it. When the write of the last-checked time fails, the call ends there
  with a zero count: the rest of the check does not run. Whatever the upstream answered, the
  task status is not set, no staging is started and nothing is deployed; the only call after
  the failed write is the removal of the temporary directory.
\<close>

theorem CheckForUpdates_last_checked_aborts:
  assumes "discovers w s appID a0 a archiveDir kotsKinds latestLicense updates"
    and "LastUpdateAtTime w (ID a) = Some e"
  shows "snd (CheckForUpdates w appID deploy skipPreflights isCLI s) =
           emit (Call_RemoveAll archiveDir)
             (discovered w appID a0 a archiveDir kotsKinds latestLicense s)
       \<and> (\<exists>err. fst (CheckForUpdates w appID deploy skipPreflights isCLI s) = Return 0 err)
       \<and> filter is_setStatus (trace (snd (CheckForUpdates w appID deploy skipPreflights isCLI s)))
            = filter is_setStatus (trace s)
       \<and> filter is_staging (trace (snd (CheckForUpdates w appID deploy skipPreflights isCLI s)))
            = filter is_staging (trace s)
       \<and> filter is_deploy (trace (snd (CheckForUpdates w appID deploy skipPreflights isCLI s)))
            = filter is_deploy (trace s)"
  by (simp add: CheckForUpdates_last_checked_fails [OF assms] emit_simps discovered_def
      discoveryCalls_def)

theorem CheckForUpdates_last_checked_aborts_witness:
  "discovers failing_world idle_state ''app-1'' demo_app demo_app ''/tmp/kotsadm1'' demo_kinds
     ''license'' [\<lparr>Cursor = ''c1''\<rparr>, \<lparr>Cursor = ''c2''\<rparr>, \<lparr>Cursor = ''c3''\<rparr>] \<and>
   LastUpdateAtTime failing_world (ID demo_app) = Some (Failure ''database is locked'') \<and>
   trace (snd (CheckForUpdates failing_world ''app-1'' True False False idle_state)) =
     discoveryCalls failing_world ''app-1'' demo_app demo_app ''/tmp/kotsadm1'' demo_kinds ''license''
       @ [Call_RemoveAll ''/tmp/kotsadm1''] \<and>
   filter is_staging (trace (snd (CheckForUpdates failing_world ''app-1'' True False False
     idle_state))) = []"
proof -
  have h2: "LastUpdateAtTime failing_world (ID demo_app) = Some (Failure ''database is locked'')"
    by (simp add: failing_world_def)
  from CheckForUpdates_last_checked_aborts [OF discovers_failing h2, of True False False]
  show ?thesis using discovers_failing h2
    by (simp add: emit_simps discovered_def idle_state_def discoveryCalls_def)
qed

text \<open>
  C6, as it is stated, fails: in a world where the upstream has three new releases and the
  write of the last-checked time fails, the call with \<open>deploy\<close> set returns
  \<open>(0, nil)\<close>, so no error reaches the caller, and its trace ends with the failed write
  and the removal of the temporary directory, so the rest of the check was not run. The
  error is nil because line 224 wraps \<open>err\<close>, which is nil there, and not \<open>t\<close>.
\<close>

theorem CheckForUpdates_last_checked_counterexample:
  "LastUpdateAtTime failing_world (ID demo_app) = Some (Failure ''database is locked'') \<and>
   CheckForUpdates failing_world ''app-1'' True False False idle_state =
     (Return 0 None,
      \<lparr>task_status = Map.empty,
       trace = discoveryCalls failing_world ''app-1'' demo_app demo_app ''/tmp/kotsadm1''
                 demo_kinds ''license'' @ [Call_RemoveAll ''/tmp/kotsadm1'']\<rparr>)"
proof -
  have h2: "LastUpdateAtTime failing_world (ID demo_app) = Some (Failure ''database is locked'')"
    by (simp add: failing_world_def)
  show ?thesis
    using h2 CheckForUpdates_last_checked_fails [OF discovers_failing h2, of True False False]
    by (simp add: emit_def discovered_def idle_state_def)
qed


subsection \<open>Staging\<close>

text \<open>
  C2. The goroutine downloads the updates of a batch in the order of the list, every one of
  them, whether or not an earlier download failed; each failed download is logged. The
  deploy is called at most once, after the last download and for the sequence that download
  returned, and only when \<open>deploy\<close> is set: never for an update that is not the last.
  The download and deploy calls of the run are, in this order, one download per update and
  then that deploy, if any.
\<close>

theorem staging_in_order:
  "filter is_call (trace (staging w a archiveDir updates deploy skipPreflights isCLI s)) =
     filter is_call (trace s) @
     map (\<lambda>u. Call_DownloadUpdate (ID a) archiveDir (Cursor u) skipPreflights) updates @
     (if deploy \<and> updates \<noteq> [] then
        (case DownloadUpdate w (ID a) archiveDir (Cursor (last updates)) skipPreflights of
           Inl err \<Rightarrow> []
         | Inr sequence \<Rightarrow> [Call_DeployVersion (ID a) sequence])
      else [])
   \<and> (\<forall>u \<in> set updates. \<forall>err.
        DownloadUpdate w (ID a) archiveDir (Cursor u) skipPreflights = Inl err \<longrightarrow>
        Log_Error err \<in> set (trace (staging w a archiveDir updates deploy skipPreflights isCLI s)))"
proof (intro conjI ballI allI impI)
  show "filter is_call (trace (staging w a archiveDir updates deploy skipPreflights isCLI s)) =
     filter is_call (trace s) @
     map (\<lambda>u. Call_DownloadUpdate (ID a) archiveDir (Cursor u) skipPreflights) updates @
     (if deploy \<and> updates \<noteq> [] then
        (case DownloadUpdate w (ID a) archiveDir (Cursor (last updates)) skipPreflights of
           Inl err \<Rightarrow> []
         | Inr sequence \<Rightarrow> [Call_DeployVersion (ID a) sequence])
      else [])"
    by (simp add: staging_def emit_simps stagingLoop_calls)
next
  fix u err
  assume "u \<in> set updates"
    and "DownloadUpdate w (ID a) archiveDir (Cursor u) skipPreflights = Inl err"
  then show "Log_Error err \<in>
      set (trace (staging w a archiveDir updates deploy skipPreflights isCLI s))"
    by (simp add: staging_def emit_simps stagingLoop_logs)
qed


theorem staging_in_order_witness:
  "\<lparr>Cursor = ''c1''\<rparr> \<in> set three_updates \<and>
   DownloadUpdate demo_world (ID demo_app) ''/tmp/kotsadm1'' ''c1'' False
     = Inl (Failure ''download failed'') \<and>
   filter is_call (trace (staging demo_world demo_app ''/tmp/kotsadm1'' three_updates True False
      False idle_state)) =
     [Call_DownloadUpdate ''app-1'' ''/tmp/kotsadm1'' ''c1'' False,
      Call_DownloadUpdate ''app-1'' ''/tmp/kotsadm1'' ''c2'' False,
      Call_DownloadUpdate ''app-1'' ''/tmp/kotsadm1'' ''c3'' False,
      Call_DeployVersion ''app-1'' 5] \<and>
   Log_Error (Failure ''download failed'') \<in> set (trace (staging demo_world demo_app
      ''/tmp/kotsadm1'' three_updates True False False idle_state))"
proof -
  have m: "\<lparr>Cursor = ''c1''\<rparr> \<in> set three_updates"
    by (simp add: three_updates_def)
  have f: "DownloadUpdate demo_world (ID demo_app) ''/tmp/kotsadm1''
      (Cursor \<lparr>Cursor = ''c1''\<rparr>) False = Inl (Failure ''download failed'')"
    by (simp add: demo_world_def)
  have l: "DownloadUpdate demo_world (ID demo_app) ''/tmp/kotsadm1''
      (Cursor (last three_updates)) False = Inr 5"
    by (simp add: demo_world_def three_updates_def)
  note t = staging_in_order [of demo_world demo_app "''/tmp/kotsadm1''" three_updates True False
      False idle_state]
  from t have c: "filter is_call (trace (staging demo_world demo_app ''/tmp/kotsadm1''
      three_updates True False False idle_state)) =
     [Call_DownloadUpdate ''app-1'' ''/tmp/kotsadm1'' ''c1'' False,
      Call_DownloadUpdate ''app-1'' ''/tmp/kotsadm1'' ''c2'' False,
      Call_DownloadUpdate ''app-1'' ''/tmp/kotsadm1'' ''c3'' False,
      Call_DeployVersion ''app-1'' 5]"
    using l by (simp add: three_updates_def idle_state_def demo_app_def)
  from t m f have "Log_Error (Failure ''download failed'') \<in> set (trace (staging demo_world
      demo_app ''/tmp/kotsadm1'' three_updates True False False idle_state))"
    by blast
  with m f c show ?thesis by simp
qed

subsection \<open>The job registry\<close>

text \<open>
  C4, as the code has it. For an application that is not airgapped and whose cadence is not
  disabled, two calls of \<open>Configure\<close> in succession that both return nil (the cron
  parser accepted the schedule expression) leave exactly one entry in the application's job,
  and that job runs. The second call keeps the job object of the first, at the same address
  and with its entry counter carried on, allocates no new object, removes the entry the first
  call installed and installs a new one, whose schedule is the one the cadence stands for at
  the second call.
\<close>

theorem Configure_twice:
  assumes "GetApp w appID = Inr a" and "GetApp w' appID = Inr a"
    and "\<not> IsAirgap a" and "UpdateCheckerSpec a \<noteq> ''@never''" and "UpdateCheckerSpec a \<noteq> []"
    and "Configure w appID r = (None, r1)" and "Configure w' appID r1 = (None, r2)"
  shows "\<exists>job e. jobs r1 (ID a) = Some job \<and> jobs r2 (ID a) = Some job
           \<and> entries (heap r2 job) = [e] \<and> triggers r2 (ID a) = [e]
           \<and> EntryID e \<notin> EntryID ` set (entries (heap r1 job))
           \<and> Schedule e = resolved w' a \<and> jobAppID e = ID a
           \<and> nextID (heap r2 job) = nextID (heap r1 job) + 1
           \<and> next_addr r2 = next_addr r1"
proof -
  let ?job = "case jobs r (ID a) of Some job \<Rightarrow> job | None \<Rightarrow> next_addr r"
  note c1 = Configure_enabled [OF assms(1) assms(3-5) assms(6)]
  from c1(1) have j1: "jobs r1 (ID a) = Some ?job" by simp
  note c2 = Configure_enabled [OF assms(2) assms(3-5) assms(7)]
  from c2(1) j1 have j2: "jobs r2 (ID a) = Some ?job" by simp
  from c1(2) have h1: "entries (heap r1 ?job) =
      [\<lparr>EntryID = nextID (heap r1 ?job), Schedule = resolved w a,
        jobAppID = ID a, jobAppSlug = Slug a\<rparr>]"
    by (simp add: Let_def)
  from c2(2) j1 have h2: "heap r2 ?job =
       \<lparr>entries = [\<lparr>EntryID = nextID (heap r1 ?job) + 1, Schedule = resolved w' a,
                     jobAppID = ID a, jobAppSlug = Slug a\<rparr>],
        running = True, nextID = nextID (heap r1 ?job) + 1\<rparr>"
    by (simp add: Let_def)
  have n: "next_addr r2 = next_addr r1"
    using assms(2-5,7) j1
    by (auto simp: Configure_def Let_def rlog_def cron_AddFunc_def split: option.splits if_splits)
  show ?thesis
    using j1 j2 h1 h2 n by (simp add: triggers_def)
qed

theorem Configure_twice_witness:
  "GetApp demo_world ''app-1'' = Inr demo_app \<and>
   GetApp (demo_world\<lparr>time_Now := 1000100\<rparr>) ''app-1'' = Inr demo_app \<and>
   \<not> IsAirgap demo_app \<and> UpdateCheckerSpec demo_app = ''@default'' \<and>
   fst (Configure demo_world ''app-1'' empty_registry) = None \<and>
   fst (Configure (demo_world\<lparr>time_Now := 1000100\<rparr>) ''app-1''
          (snd (Configure demo_world ''app-1'' empty_registry))) = None \<and>
   map Schedule (triggers (snd (Configure (demo_world\<lparr>time_Now := 1000100\<rparr>) ''app-1''
          (snd (Configure demo_world ''app-1'' empty_registry)))) ''app-1'') = [''48 1/4 * * *'']"
proof -
  let ?w' = "demo_world\<lparr>time_Now := 1000100\<rparr>"
  let ?c1 = "Configure demo_world ''app-1'' empty_registry"
  let ?c2 = "Configure ?w' ''app-1'' (snd ?c1)"
  have g: "GetApp demo_world ''app-1'' = Inr demo_app" "GetApp ?w' ''app-1'' = Inr demo_app"
    by (simp_all add: demo_world_def)
  have a: "\<not> IsAirgap demo_app" "UpdateCheckerSpec demo_app \<noteq> ''@never''"
    "UpdateCheckerSpec demo_app \<noteq> []" "UpdateCheckerSpec demo_app = ''@default''"
    "ID demo_app = ''app-1''"
    by (simp_all add: demo_app_def)
  have p: "cron_Parse demo_world ''46 1/4 * * *'' = None" "cron_Parse ?w' ''48 1/4 * * *'' = None"
    "time_Now demo_world = 1000000" "time_Now ?w' = 1000100"
    by (simp_all add: demo_world_def)
  have f1: "fst ?c1 = None"
    using g a p
    by (simp add: Configure_def Let_def cron_AddFunc_def defaultCronSpec_demo
        split: option.splits prod.splits)
  have f2: "fst ?c2 = None"
    using g a p
    by (simp add: Configure_def [of ?w'] Let_def cron_AddFunc_def defaultCronSpec_demo
        split: option.splits prod.splits)
  have e1: "?c1 = (None, snd ?c1)" using f1 by (metis prod.collapse)
  have e2: "?c2 = (None, snd ?c2)" using f2 by (metis prod.collapse)
  from Configure_twice [OF g a(1-3) e1 e2]
  show ?thesis
    using g a f1 f2 p by (auto simp: resolved_def defaultCronSpec_demo)
qed

text \<open>
  C4, as it is stated, fails for an airgapped application: its cadence is the default one,
  which is not disabled, both calls of \<open>Configure\<close> return nil, and no trigger entry is
  registered for it, since \<open>Configure\<close> returns at line 62 before it touches the jobs.
\<close>

theorem Configure_twice_counterexample:
  "GetApp airgap_world ''app-2'' = Inr airgap_app \<and>
   UpdateCheckerSpec airgap_app = ''@default'' \<and>
   fst (Configure airgap_world ''app-2'' empty_registry) = None \<and>
   fst (Configure airgap_world ''app-2'' (snd (Configure airgap_world ''app-2'' empty_registry)))
     = None \<and>
   triggers (snd (Configure airgap_world ''app-2''
                    (snd (Configure airgap_world ''app-2'' empty_registry)))) ''app-2'' = []"
  by (simp add: Configure_def airgap_world_def airgap_app_def empty_registry_def triggers_def)

text \<open>
  C8. For an application whose cadence is \<open>@never\<close> or empty, \<open>Configure\<close> returns
  nil, leaves the jobs map and the entries of every job as they were, so it installs no
  entry, and stops the application's job if it has one: afterwards the application has no
  active trigger. An airgapped application is left alone by \<open>Configure\<close>; it never gets
  a job from \<open>Start\<close> or \<open>Configure\<close>, which is the third premise. When the store
  answers \<open>GetApp\<close> with the application asked for, \<open>Start\<close> on a registry in which
  such an application has no job leaves it without a trigger.
\<close>

theorem Configure_disabled:
  assumes "GetApp w appID = Inr a"
    and "UpdateCheckerSpec a = ''@never'' \<or> UpdateCheckerSpec a = []"
    and "IsAirgap a \<longrightarrow> jobs r (ID a) = None"
  shows "fst (Configure w appID r) = None
       \<and> jobs (snd (Configure w appID r)) = jobs r
       \<and> (\<forall>p. entries (heap (snd (Configure w appID r)) p) = entries (heap r p))
       \<and> triggers (snd (Configure w appID r)) (ID a) = []
       \<and> ((\<forall>x b. GetApp w x = Inr b \<longrightarrow> ID b = x) \<longrightarrow> jobs r0 (ID a) = None \<longrightarrow>
            triggers (snd (Start w r0)) (ID a) = [])
       \<and> (\<forall>job. jobs r (ID a) = Some job \<longrightarrow> \<not> running (heap (snd (Configure w appID r)) job))"
proof -
  have c: "Configure w appID r =
      (None, if IsAirgap a then r
             else Stop (ID a) (rlog (Log_Debug ''configure update checker for app'') r))"
    using assms(1,2) by (auto simp: Configure_def Let_def)
  have t: "triggers r (ID a) = []" if "IsAirgap a"
    using that assms(3) by (simp add: triggers_def)
  have s: "triggers (snd (Start w r0)) (ID a) = []"
    if wf: "\<forall>x b. GetApp w x = Inr b \<longrightarrow> ID b = x" and j: "jobs r0 (ID a) = None"
  proof -
    have d: "IsAirgap b \<or> UpdateCheckerSpec b = ''@never'' \<or> UpdateCheckerSpec b = []"
      if "GetApp w x = Inr b" and "ID b = ID a" for x b
    proof -
      from wf that(1) have "ID b = x" by blast
      moreover from wf assms(1) have "ID a = appID" by blast
      ultimately have "b = a" using that assms(1) by simp
      with assms(2) show ?thesis by simp
    qed
    have "jobs (StartLoop w appsList (rlog (Log_Debug ''starting update checker'') r0)) (ID a)
        = None" for appsList
      using StartLoop_jobs_other [of w "ID a", OF d] j by (simp add: rlog_def)
    then have "jobs (snd (Start w r0)) (ID a) = None"
      using j by (simp add: Start_def Let_def rlog_def split: sum.splits)
    then show ?thesis by (simp add: triggers_def)
  qed
  have st: "\<not> running (heap (snd (Configure w appID r)) job)" if "jobs r (ID a) = Some job" for job
    using that assms(3) by (auto simp: c Stop_def rlog_def cron_Stop_def)
  show ?thesis
    using t s st by (simp add: c Stop_simps rlog_def)
qed


theorem Configure_disabled_witness:
  "GetApp never_world ''app-3'' = Inr never_app \<and>
   UpdateCheckerSpec never_app = ''@never'' \<and>
   jobs busy_registry ''app-3'' = Some 0 \<and>
   triggers busy_registry ''app-3'' =
     [\<lparr>EntryID = 1, Schedule = ''0 * * * *'', jobAppID = ''app-3'', jobAppSlug = ''manual''\<rparr>] \<and>
   fst (Configure never_world ''app-3'' busy_registry) = None \<and>
   jobs (snd (Configure never_world ''app-3'' busy_registry)) ''app-3'' = Some 0 \<and>
   triggers (snd (Configure never_world ''app-3'' busy_registry)) ''app-3'' = [] \<and>
   \<not> running (heap (snd (Configure never_world ''app-3'' busy_registry)) 0) \<and>
   ListInstalledApps never_world = Inr [demo_app, never_app] \<and>
   triggers (snd (Start never_world empty_registry)) ''app-3'' = []"
proof -
  have g: "GetApp never_world ''app-3'' = Inr never_app"
    by (simp add: never_world_def)
  have d: "UpdateCheckerSpec never_app = ''@never'' \<or> UpdateCheckerSpec never_app = []"
    and i: "IsAirgap never_app \<longrightarrow> jobs busy_registry (ID never_app) = None"
    and n: "ID never_app = ''app-3''"
    by (simp_all add: never_app_def)
  have wf: "\<forall>x b. GetApp never_world x = Inr b \<longrightarrow> ID b = x"
    by (simp add: never_world_def never_app_def demo_app_def)
  have e: "jobs empty_registry (ID never_app) = None"
    by (simp add: empty_registry_def)
  let ?c = "Configure never_world ''app-3'' busy_registry"
  note T = Configure_disabled [OF g d i, of empty_registry]
  from T have t1: "fst ?c = None" by (rule conjunct1)
  from T have t2: "jobs (snd ?c) = jobs busy_registry" by (rule conjunct1 [OF conjunct2])
  from T have t4: "triggers (snd ?c) (ID never_app) = []"
    by (rule conjunct1 [OF conjunct2 [OF conjunct2 [OF conjunct2]]])
  from T have "(\<forall>x b. GetApp never_world x = Inr b \<longrightarrow> ID b = x) \<longrightarrow>
      jobs empty_registry (ID never_app) = None \<longrightarrow>
      triggers (snd (Start never_world empty_registry)) (ID never_app) = []"
    by (rule conjunct1 [OF conjunct2 [OF conjunct2 [OF conjunct2 [OF conjunct2]]]])
  from mp [OF mp [OF this wf] e]
  have t5: "triggers (snd (Start never_world empty_registry)) (ID never_app) = []" .
  from T have "\<forall>job. jobs busy_registry (ID never_app) = Some job \<longrightarrow>
      \<not> running (heap (snd ?c) job)"
    by (rule conjunct2 [OF conjunct2 [OF conjunct2 [OF conjunct2 [OF conjunct2]]]])
  then have t6: "\<not> running (heap (snd ?c) 0)"
    by (simp add: n busy_registry_def)
  have b: "jobs busy_registry ''app-3'' = Some 0"
    "triggers busy_registry ''app-3'' =
       [\<lparr>EntryID = 1, Schedule = ''0 * * * *'', jobAppID = ''app-3'', jobAppSlug = ''manual''\<rparr>]"
    by (simp_all add: busy_registry_def triggers_def)
  have u: "UpdateCheckerSpec never_app = ''@never''" by (simp add: never_app_def)
  have l: "ListInstalledApps never_world = Inr [demo_app, never_app]"
    by (simp add: never_world_def)
  show ?thesis
    using g u b t1 t2 t4 t5 t6 l by (simp add: n)
qed

subsection \<open>The default cadence\<close>

text \<open>
  C5. At time \<open>t\<close> the cadence \<open>@default\<close> stands for the expression whose minute
  field is the minute of \<open>t\<close> and whose hour field is the hour of \<open>t\<close> modulo 4,
  with step 4. Two times in the same minute give the same expression. The expression is due
  exactly in the minutes that lie a multiple of 240 minutes from the minute of \<open>t\<close>:
  once every four hours. A successful \<open>Configure\<close> of an application with that cadence
  installs this expression, taken at the time of the call, as the schedule of its one entry.
\<close>

theorem defaultCronSpec_spread:
  "defaultCronSpec t =
     string_of_nat (Minute t) @ '' '' @ string_of_nat (Hour t mod 4) @ ''/4 * * *''
   \<and> (t' div 60 = t div 60 \<longrightarrow> defaultCronSpec t' = defaultCronSpec t)
   \<and> (cron_due (Minute t) (Hour t mod 4) 4 u \<longleftrightarrow> u div 60 mod 240 = t div 60 mod 240)
   \<and> (GetApp w appID = Inr a \<and> \<not> IsAirgap a \<and> UpdateCheckerSpec a = ''@default'' \<and>
        Configure w appID r = (None, r') \<longrightarrow>
        map Schedule (triggers r' (ID a)) = [defaultCronSpec (time_Now w)])"
proof (intro conjI impI)
  show "defaultCronSpec t =
     string_of_nat (Minute t) @ '' '' @ string_of_nat (Hour t mod 4) @ ''/4 * * *''"
    by (simp add: defaultCronSpec_def Let_def)
next
  assume m: "t' div 60 = t div 60"
  have "t' div 3600 = t' div 60 div 60" "t div 3600 = t div 60 div 60"
    by (simp_all add: div_mult2_eq [symmetric])
  with m have "Hour t' = Hour t" "Minute t' = Minute t"
    by (simp_all add: Hour_def Minute_def)
  then show "defaultCronSpec t' = defaultCronSpec t"
    by (simp add: defaultCronSpec_def)
next
  show "cron_due (Minute t) (Hour t mod 4) 4 u \<longleftrightarrow> u div 60 mod 240 = t div 60 mod 240"
    by (rule due_iff)
next
  assume c: "GetApp w appID = Inr a \<and> \<not> IsAirgap a \<and> UpdateCheckerSpec a = ''@default'' \<and>
        Configure w appID r = (None, r')"
  then have a: "GetApp w appID = Inr a" "\<not> IsAirgap a" "UpdateCheckerSpec a = ''@default''"
      "Configure w appID r = (None, r')"
    by simp_all
  from a(3) have ne: "UpdateCheckerSpec a \<noteq> ''@never''" "UpdateCheckerSpec a \<noteq> []" by simp_all
  note e = Configure_enabled [OF a(1,2) ne a(4)]
  from e(1) e(2) a(3) show "map Schedule (triggers r' (ID a)) = [defaultCronSpec (time_Now w)]"
    by (simp add: triggers_def Let_def resolved_def)
qed

theorem defaultCronSpec_spread_witness:
  "defaultCronSpec 1000000 = ''46 1/4 * * *'' \<and>
   (1000019::nat) div 60 = 1000000 div 60 \<and>
   defaultCronSpec 1000019 = defaultCronSpec 1000000 \<and>
   cron_due 46 1 4 1014400 \<and>
   GetApp demo_world ''app-1'' = Inr demo_app \<and> \<not> IsAirgap demo_app \<and>
   UpdateCheckerSpec demo_app = ''@default'' \<and>
   fst (Configure demo_world ''app-1'' empty_registry) = None \<and>
   map Schedule (triggers (snd (Configure demo_world ''app-1'' empty_registry)) ''app-1'') =
     [''46 1/4 * * *'']"
proof -
  let ?c = "Configure demo_world ''app-1'' empty_registry"
  have g: "GetApp demo_world ''app-1'' = Inr demo_app"
    and p: "cron_Parse demo_world ''46 1/4 * * *'' = None" "time_Now demo_world = 1000000"
    by (simp_all add: demo_world_def)
  have a: "\<not> IsAirgap demo_app" "UpdateCheckerSpec demo_app = ''@default''"
    "ID demo_app = ''app-1''"
    by (simp_all add: demo_app_def)
  have f: "fst ?c = None"
    using g a p
    by (simp add: Configure_def Let_def cron_AddFunc_def defaultCronSpec_demo
        split: option.splits prod.splits)
  then have e: "?c = (None, snd ?c)" by (metis prod.collapse)
  have mh: "Minute 1000000 = 46" "Hour 1000000 mod 4 = 1"
    by (simp_all add: Minute_def Hour_def)
  from defaultCronSpec_spread [of 1000000 1000019 1014400 demo_world "''app-1''" demo_app
      empty_registry "snd ?c"]
  show ?thesis
    using g a f e p by (simp add: mh defaultCronSpec_demo)
qed

end
